theory Spec2Isabelle
  imports Complex_Main "HOL-Library.Log_Nat"
begin

section \<open>Go's machine integers\<close>

text \<open>
  \<^verbatim>\<open>time.Duration\<close> is an \<^verbatim>\<open>int64\<close> count of nanoseconds.  The model keeps such values
  as \<open>int\<close> and writes the two's-complement wrap-around of every subtraction and
  multiplication out, so that an overflowing expression of the source overflows in the
  model as well.  Go's \<^verbatim>\<open>/\<close> and \<^verbatim>\<open>%\<close> on integers truncate towards zero; the remainder
  takes the sign of the dividend.
\<close>

definition is_int64 :: "int \<Rightarrow> bool" where
  "is_int64 x \<longleftrightarrow> - 9223372036854775808 \<le> x \<and> x \<le> 9223372036854775807"

definition wrap64 :: "int \<Rightarrow> int" where
  "wrap64 x = (x + 9223372036854775808) mod 18446744073709551616 - 9223372036854775808"

definition int64_sub :: "int \<Rightarrow> int \<Rightarrow> int" where
  "int64_sub a b = wrap64 (a - b)"

definition int64_mul :: "int \<Rightarrow> int \<Rightarrow> int" where
  "int64_mul a b = wrap64 (a * b)"

definition go_quo :: "int \<Rightarrow> int \<Rightarrow> int" where
  "go_quo a b = sgn a * sgn b * (\<bar>a\<bar> div \<bar>b\<bar>)"

definition go_rem :: "int \<Rightarrow> int \<Rightarrow> int" where
  "go_rem a b = sgn a * (\<bar>a\<bar> mod \<bar>b\<bar>)"


section \<open>Go's float64\<close>

text \<open>
  \<^verbatim>\<open>Duration.Seconds\<close> returns a \<^verbatim>\<open>float64\<close>.  A binary64 value is a rational number, and
  every operation of IEEE 754 is the exact operation followed by rounding to the nearest
  number with a 53-bit significand, ties to the even significand.  \<open>float64\<close> is that
  rounding.  The exponent range is not modelled: the magnitudes that a duration in
  seconds can take lie between \<open>10\<^sup>-\<^sup>9\<close> and \<open>10\<^sup>1\<^sup>0\<close>, far from the subnormal numbers
  and from overflow.
\<close>

definition pow2 :: "int \<Rightarrow> rat" where
  "pow2 e = (if 0 \<le> e then 2 ^ nat e else 1 / 2 ^ nat (- e))"

text \<open>The binary exponent of a non-zero rational: \<open>2\<^sup>e \<le> \<bar>x\<bar> < 2\<^sup>e\<^sup>+\<^sup>1\<close>.\<close>

definition exponent2 :: "rat \<Rightarrow> int" where
  "exponent2 x =
     (let (p, q) = quotient_of \<bar>x\<bar>;
          k = bitlen p - bitlen q
      in if pow2 k \<le> \<bar>x\<bar> then k else k - 1)"

definition round_half_even :: "rat \<Rightarrow> int" where
  "round_half_even y =
     (let f = \<lfloor>y\<rfloor>; r = y - of_int f
      in if r < 1 / 2 then f
         else if 1 / 2 < r then f + 1
         else if even f then f else f + 1)"

definition float64 :: "rat \<Rightarrow> rat" where
  "float64 x =
     (if x = 0 then 0
      else let u = pow2 (exponent2 x - 52)
           in sgn x * (of_int (round_half_even (\<bar>x\<bar> / u)) * u))"

text \<open>The conversion \<^verbatim>\<open>int64(f)\<close> of a float discards the fraction.\<close>

definition int64_of_float :: "rat \<Rightarrow> int" where
  "int64_of_float x = (if 0 \<le> x then \<lfloor>x\<rfloor> else \<lceil>x\<rceil>)"


section \<open>Package time\<close>

text \<open>
  A \<^verbatim>\<open>time.Time\<close> is an instant with nanosecond precision.  The model identifies it with
  its count of nanoseconds since the Unix epoch, which is not bounded here: the seconds
  field of a \<^verbatim>\<open>Time\<close> overflows only some 292 billion years away from year 1.  The
  monotonic clock reading that \<^verbatim>\<open>time.Now\<close> attaches to its result is not modelled;
  instants are compared by their wall-clock reading.
\<close>

type_synonym Duration = int
type_synonym Time = int

definition Nanosecond :: Duration where
  "Nanosecond = 1"

definition Second :: Duration where
  "Second = 1000000000"

definition minDuration :: Duration where
  "minDuration = - 9223372036854775808"

definition maxDuration :: Duration where
  "maxDuration = 9223372036854775807"

definition Unix :: "int \<Rightarrow> int \<Rightarrow> Time" where
  "Unix sec nsec = sec * 1000000000 + nsec"

text \<open>\<^verbatim>\<open>t.Nanosecond()\<close>: the nanosecond offset within the second, in \<open>[0, 999999999]\<close>.\<close>

definition Time_Nanosecond :: "Time \<Rightarrow> int" where
  "Time_Nanosecond t = t mod 1000000000"

definition Add :: "Time \<Rightarrow> Duration \<Rightarrow> Time" where
  "Add t d = t + d"

text \<open>
  \<^verbatim>\<open>t.Sub(u)\<close>: the duration \<open>t - u\<close>; when it does not fit a \<^verbatim>\<open>Duration\<close>, the maximum
  (or minimum) duration.
\<close>

definition Sub :: "Time \<Rightarrow> Time \<Rightarrow> Duration" where
  "Sub t u =
     (if t - u < minDuration then minDuration
      else if maxDuration < t - u then maxDuration
      else t - u)"

definition Nanoseconds :: "Duration \<Rightarrow> int" where
  "Nanoseconds d = d"

text \<open>
  \<^verbatim>\<open>
  func (d Duration) Seconds() float64 {
      sec := d / Second
      nsec := d % Second
      return float64(sec) + float64(nsec)/1e9
  }
  \<close>
\<close>

definition Seconds :: "Duration \<Rightarrow> rat" where
  "Seconds d =
     (let sec = go_quo d Second;
          nsec = go_rem d Second
      in float64 (float64 (of_int sec) + float64 (float64 (of_int nsec) / 1000000000)))"


section \<open>The constant delay schedule\<close>

record ConstantDelaySchedule =
  Delay :: Duration
  StartTime :: Time

datatype panic = IntegerDivideByZero

definition Every :: "Duration \<Rightarrow> ConstantDelaySchedule" where
  "Every duration =
     (let d = (if duration < Second then Second else duration)
      in \<lparr>Delay = int64_sub d (go_rem (Nanoseconds d) Second),
          StartTime = Unix 0 0\<rparr>)"

text \<open>
  The two constructors below read the clock.  The reading \<open>t\<close> of \<^verbatim>\<open>time.Now()\<close> is an
  argument of the model.
\<close>

definition EveryWithInitial :: "Time \<Rightarrow> Duration \<Rightarrow> Duration \<Rightarrow> ConstantDelaySchedule" where
  "EveryWithInitial t duration initial =
     (let cds = Every duration
      in cds\<lparr>StartTime := Add t (int64_sub initial (go_rem (Time_Nanosecond t) Second))\<rparr>)"

text \<open>
  \<open>EveryWithRandInitial\<close> also draws a number from a generator seeded with an earlier
  reading of the clock.  The draw \<open>r63\<close> is the result of \<^verbatim>\<open>r.Int63()\<close>, a non-negative
  63-bit integer.  The remainder by \<^verbatim>\<open>int64(duration.Seconds())\<close> panics when that divisor
  is zero; the divisor is computed from the argument \<open>duration\<close>, not from \<open>cds.Delay\<close>.
\<close>

definition is_int63 :: "int \<Rightarrow> bool" where
  "is_int63 r \<longleftrightarrow> 0 \<le> r \<and> r \<le> 9223372036854775807"

definition EveryWithRandInitial ::
    "Time \<Rightarrow> int \<Rightarrow> Duration \<Rightarrow> panic + ConstantDelaySchedule" where
  "EveryWithRandInitial t r63 duration =
     (let cds = Every duration;
          n = int64_of_float (Seconds duration)
      in if n = 0 then Inl IntegerDivideByZero
         else Inr (cds\<lparr>StartTime :=
                Add t (int64_sub (int64_sub (Delay cds) (go_rem (Time_Nanosecond t) Second))
                                 (int64_mul (go_rem r63 n) Second))\<rparr>))"

definition Next :: "ConstantDelaySchedule \<Rightarrow> Time \<Rightarrow> Time" where
  "Next schedule t =
     (if 0 < Seconds (Sub (StartTime schedule) t) then StartTime schedule
      else Add t (int64_sub (Delay schedule) (int64_mul (Time_Nanosecond t) Nanosecond)))"

text \<open>A time truncated to the start of its second.\<close>

definition truncate_second :: "Time \<Rightarrow> Time" where
  "truncate_second t = t - Time_Nanosecond t"


section \<open>Properties of the rounding\<close>

lemma pow2_pos: "0 < pow2 e"
  by (simp add: pow2_def)

lemma pow2_add: "pow2 (a + b) = pow2 a * pow2 b"
proof -
  have "pow2 e = 2 powi e" for e
    by (simp add: pow2_def power_int_def field_simps)
  then show ?thesis by (simp add: power_int_add)
qed

lemma pow2_mono: "a \<le> b \<Longrightarrow> pow2 a \<le> pow2 b"
proof -
  assume "a \<le> b"
  have "pow2 e = 2 powi e" for e
    by (simp add: pow2_def power_int_def field_simps)
  with \<open>a \<le> b\<close> show ?thesis by (simp add: power_int_increasing)
qed

lemma exponent2_bounds:
  assumes "x \<noteq> 0"
  shows "pow2 (exponent2 x) \<le> \<bar>x\<bar>" and "\<bar>x\<bar> < pow2 (exponent2 x + 1)"
proof -
  obtain p q where pq: "quotient_of \<bar>x\<bar> = (p, q)" by (cases "quotient_of \<bar>x\<bar>")
  then have q: "0 < q" by (rule quotient_of_denom_pos)
  have x: "\<bar>x\<bar> = of_int p / of_int q" using pq by (rule quotient_of_div)
  have "0 < \<bar>x\<bar>" using assms by simp
  with x q have p: "0 < p" by (simp add: zero_less_divide_iff)
  define k where "k = bitlen p - bitlen q"
  have e: "exponent2 x = (if pow2 k \<le> \<bar>x\<bar> then k else k - 1)"
    by (simp add: exponent2_def pq k_def Let_def)
  have bl: "1 \<le> bitlen n" if "0 < n" for n
    using that compute_bitlen [of n] bitlen_nonneg [of "n div 2"] by simp
  have bnd: "pow2 (bitlen n - 1) \<le> of_int n \<and> of_int n < pow2 (bitlen n)" if "0 < n" for n
  proof -
    have b1: "1 \<le> bitlen n" using that by (rule bl)
    have "(2::int) ^ nat (bitlen n - 1) \<le> n" "n < 2 ^ nat (bitlen n)"
      using bitlen_bounds [OF that] by simp_all
    then have "(of_int (2 ^ nat (bitlen n - 1)) :: rat) \<le> of_int n"
      and "(of_int n :: rat) < of_int (2 ^ nat (bitlen n))"
      by (simp_all only: of_int_le_iff of_int_less_iff)
    then show ?thesis using b1 by (simp add: pow2_def)
  qed
  have P: "pow2 (bitlen p - 1) \<le> of_int p" "of_int p < pow2 (bitlen p)"
    using bnd [OF p] by simp_all
  have Q: "pow2 (bitlen q - 1) \<le> of_int q" "of_int q < pow2 (bitlen q)"
    using bnd [OF q] by simp_all
  have qpos: "(0::rat) < of_int q" using q by simp
  have lo: "pow2 (k - 1) \<le> \<bar>x\<bar>"
  proof -
    have "pow2 (k - 1) * of_int q \<le> pow2 (k - 1) * pow2 (bitlen q)"
      using Q(2) pow2_pos [of "k - 1"] by (simp add: less_imp_le)
    also have "\<dots> = pow2 (bitlen p - 1)"
    proof -
      have "k - 1 + bitlen q = bitlen p - 1" by (simp add: k_def)
      then have "pow2 (bitlen p - 1) = pow2 (k - 1 + bitlen q)" by (rule arg_cong [symmetric])
      then show ?thesis by (simp only: pow2_add)
    qed
    also have "\<dots> \<le> of_int p" by (rule P(1))
    finally show ?thesis using qpos by (simp add: x pos_le_divide_eq)
  qed
  have hi: "\<bar>x\<bar> < pow2 (k + 1)"
  proof -
    have "of_int p < pow2 (bitlen p)" by (rule P(2))
    also have "\<dots> = pow2 (k + 1) * pow2 (bitlen q - 1)"
    proof -
      have "k + 1 + (bitlen q - 1) = bitlen p" by (simp add: k_def)
      then have "pow2 (bitlen p) = pow2 (k + 1 + (bitlen q - 1))" by (rule arg_cong [symmetric])
      then show ?thesis by (simp only: pow2_add)
    qed
    also have "\<dots> \<le> pow2 (k + 1) * of_int q"
      using Q(1) pow2_pos [of "k + 1"] by simp
    finally show ?thesis using qpos by (simp add: x pos_divide_less_eq)
  qed
  show "pow2 (exponent2 x) \<le> \<bar>x\<bar>"
    using lo by (simp add: e)
  show "\<bar>x\<bar> < pow2 (exponent2 x + 1)"
    using hi by (auto simp add: e not_le)
qed


lemma round_half_even_ge_floor: "\<lfloor>y\<rfloor> \<le> round_half_even y"
  by (simp add: round_half_even_def Let_def)

lemma float64_zero: "float64 0 = 0"
  by (simp add: float64_def)

lemma float64_abs_ge:
  assumes "x \<noteq> 0"
  shows "pow2 (exponent2 x) \<le> of_int (round_half_even (\<bar>x\<bar> / pow2 (exponent2 x - 52))) * pow2 (exponent2 x - 52)"
proof -
  define e where "e = exponent2 x"
  define u where "u = pow2 (e - 52)"
  have u: "0 < u" by (simp add: u_def pow2_pos)
  have split: "pow2 e = pow2 52 * u"
  proof -
    have "pow2 e = pow2 (52 + (e - 52))" by simp
    then show ?thesis by (simp only: pow2_add u_def)
  qed
  have "pow2 e \<le> \<bar>x\<bar>" using exponent2_bounds(1) [OF assms] by (simp add: e_def)
  then have "pow2 52 \<le> \<bar>x\<bar> / u" using u by (simp add: split pos_le_divide_eq)
  moreover have "pow2 52 = of_int 4503599627370496" by (simp add: pow2_def)
  ultimately have "of_int 4503599627370496 \<le> \<bar>x\<bar> / u" by simp
  then have "4503599627370496 \<le> \<lfloor>\<bar>x\<bar> / u\<rfloor>" by (simp only: le_floor_iff)
  then have "4503599627370496 \<le> round_half_even (\<bar>x\<bar> / u)"
    using round_half_even_ge_floor [of "\<bar>x\<bar> / u"] by linarith
  then have "(of_int 4503599627370496 :: rat) \<le> of_int (round_half_even (\<bar>x\<bar> / u))"
    by (simp only: of_int_le_iff)
  then have "pow2 52 * u \<le> of_int (round_half_even (\<bar>x\<bar> / u)) * u"
    using u \<open>pow2 52 = of_int 4503599627370496\<close> by (simp add: mult_right_mono)
  then have "pow2 e \<le> of_int (round_half_even (\<bar>x\<bar> / u)) * u"
    by (simp only: split)
  then show ?thesis by (simp only: u_def e_def)
qed

lemma float64_pos: "0 < x \<Longrightarrow> 0 < float64 x"
proof -
  assume x: "0 < x"
  then have "x \<noteq> 0" by simp
  from float64_abs_ge [OF this] pow2_pos [of "exponent2 x"]
  have "0 < of_int (round_half_even (\<bar>x\<bar> / pow2 (exponent2 x - 52))) * pow2 (exponent2 x - 52)"
    by linarith
  with x show ?thesis by (simp add: float64_def Let_def)
qed

lemma float64_neg: "x < 0 \<Longrightarrow> float64 x < 0"
proof -
  assume x: "x < 0"
  then have "x \<noteq> 0" by simp
  from float64_abs_ge [OF this] pow2_pos [of "exponent2 x"]
  have "0 < of_int (round_half_even (\<bar>x\<bar> / pow2 (exponent2 x - 52))) * pow2 (exponent2 x - 52)"
    by linarith
  with x show ?thesis by (simp add: float64_def Let_def)
qed

lemma float64_nonneg: "0 \<le> x \<Longrightarrow> 0 \<le> float64 x"
  using float64_pos [of x] float64_zero by (cases "x = 0") (simp_all add: less_imp_le)

lemma float64_nonpos: "x \<le> 0 \<Longrightarrow> float64 x \<le> 0"
  using float64_neg [of x] float64_zero by (cases "x = 0") (simp_all add: less_imp_le)

lemma float64_ge_one: "1 \<le> x \<Longrightarrow> 1 \<le> float64 x"
proof -
  assume x: "1 \<le> x"
  then have nz: "x \<noteq> 0" and pos: "0 < x" by simp_all
  have "\<bar>x\<bar> < pow2 (exponent2 x + 1)" by (rule exponent2_bounds(2) [OF nz])
  with x have "1 < pow2 (exponent2 x + 1)" by simp
  have e: "0 \<le> exponent2 x"
  proof (rule ccontr)
    assume "\<not> 0 \<le> exponent2 x"
    then have "exponent2 x + 1 \<le> 0" by simp
    then have "pow2 (exponent2 x + 1) \<le> pow2 0" by (rule pow2_mono)
    with \<open>1 < pow2 (exponent2 x + 1)\<close> show False by (simp add: pow2_def)
  qed
  then have "pow2 0 \<le> pow2 (exponent2 x)" by (rule pow2_mono)
  then have "1 \<le> pow2 (exponent2 x)" by (simp add: pow2_def)
  with float64_abs_ge [OF nz]
  have "1 \<le> of_int (round_half_even (\<bar>x\<bar> / pow2 (exponent2 x - 52))) * pow2 (exponent2 x - 52)"
    by linarith
  with pos show ?thesis by (simp add: float64_def Let_def)
qed


section \<open>Truncated division, seconds and the future test\<close>

lemma go_quo_rem_pos:
  "0 \<le> d \<Longrightarrow> go_quo d Second = d div 1000000000 \<and> go_rem d Second = d mod 1000000000"
  by (cases "d = 0") (simp_all add: go_quo_def go_rem_def Second_def)

lemma go_quo_rem_neg:
  "d < 0 \<Longrightarrow> go_quo d Second = - ((- d) div 1000000000) \<and> go_rem d Second = - ((- d) mod 1000000000)"
  by (simp add: go_quo_def go_rem_def Second_def)

lemma Seconds_pos:
  assumes "0 < d"
  shows "0 < Seconds d"
proof -
  let ?s = "d div 1000000000" and ?n = "d mod 1000000000"
  have qr: "go_quo d Second = ?s" "go_rem d Second = ?n"
    using go_quo_rem_pos [of d] assms by simp_all
  have s: "0 \<le> ?s" and n: "0 \<le> ?n" using assms by simp_all
  have a: "0 \<le> float64 (of_int ?s)" using s by (simp add: float64_nonneg)
  have b: "0 \<le> float64 (float64 (of_int ?n) / 1000000000)"
    using n by (simp add: float64_nonneg)
  have "0 < float64 (of_int ?s) + float64 (float64 (of_int ?n) / 1000000000)"
  proof (cases "?s = 0")
    case True
    then have "d = ?n" using div_mult_mod_eq [of d 1000000000] by simp
    with assms have "0 < ?n" by simp
    then have "(0::rat) < of_int ?n" by (simp only: of_int_0_less_iff)
    then have "0 < float64 (of_int ?n)" by (rule float64_pos)
    then have "0 < float64 (of_int ?n) / 1000000000" by simp
    then have "0 < float64 (float64 (of_int ?n) / 1000000000)" by (rule float64_pos)
    with a show ?thesis by linarith
  next
    case False
    with s have "0 < ?s" by linarith
    then have "(0::rat) < of_int ?s" by (simp only: of_int_0_less_iff)
    then have "0 < float64 (of_int ?s)" by (rule float64_pos)
    with b show ?thesis by linarith
  qed
  then have "0 < float64 (float64 (of_int ?s) + float64 (float64 (of_int ?n) / 1000000000))"
    by (rule float64_pos)
  then show ?thesis by (simp add: Seconds_def Let_def qr)
qed

lemma Seconds_nonpos:
  assumes "d \<le> 0"
  shows "Seconds d \<le> 0"
proof (cases "d = 0")
  case True
  then show ?thesis by (simp add: Seconds_def go_quo_def go_rem_def float64_zero)
next
  case False
  with assms have d: "d < 0" by simp
  let ?s = "- ((- d) div 1000000000)" and ?n = "- ((- d) mod 1000000000)"
  have qr: "go_quo d Second = ?s" "go_rem d Second = ?n"
    using go_quo_rem_neg [OF d] by simp_all
  have "0 \<le> (- d) div 1000000000" using d by (simp add: pos_imp_zdiv_nonneg_iff)
  then have s: "?s \<le> 0" by simp
  have n: "?n \<le> 0" by simp
  have "(of_int ?s :: rat) \<le> 0" using s by (simp only: of_int_le_0_iff)
  then have a: "float64 (of_int ?s) \<le> 0" by (rule float64_nonpos)
  have "(of_int ?n :: rat) \<le> 0" using n by (simp only: of_int_le_0_iff)
  then have "float64 (of_int ?n) \<le> 0" by (rule float64_nonpos)
  then have "float64 (of_int ?n) / 1000000000 \<le> 0" by (simp add: divide_le_0_iff)
  then have b: "float64 (float64 (of_int ?n) / 1000000000) \<le> 0" by (rule float64_nonpos)
  from a b have "float64 (of_int ?s) + float64 (float64 (of_int ?n) / 1000000000) \<le> 0"
    by linarith
  then have "float64 (float64 (of_int ?s) + float64 (float64 (of_int ?n) / 1000000000)) \<le> 0"
    by (rule float64_nonpos)
  then show ?thesis by (simp only: Seconds_def Let_def qr)
qed

lemma Seconds_pos_iff: "0 < Seconds d \<longleftrightarrow> 0 < d"
  using Seconds_pos [of d] Seconds_nonpos [of d] by (cases "0 < d") auto

lemma Seconds_ge_one:
  assumes "Second \<le> d"
  shows "1 \<le> Seconds d"
proof -
  let ?s = "d div 1000000000" and ?n = "d mod 1000000000"
  have d: "1000000000 \<le> d" using assms by (simp add: Second_def)
  then have qr: "go_quo d Second = ?s" "go_rem d Second = ?n"
    using go_quo_rem_pos [of d] by simp_all
  have "1000000000 div 1000000000 \<le> ?s" using d by (rule zdiv_mono1) simp
  then have s: "1 \<le> ?s" by simp
  have n: "0 \<le> ?n" by simp
  have "(1::rat) \<le> of_int ?s" using s by (simp only: of_int_1_le_iff)
  then have a: "1 \<le> float64 (of_int ?s)" by (rule float64_ge_one)
  have "(0::rat) \<le> of_int ?n" using n by (simp only: of_int_0_le_iff)
  then have "0 \<le> float64 (of_int ?n)" by (rule float64_nonneg)
  then have "0 \<le> float64 (of_int ?n) / 1000000000" by simp
  then have b: "0 \<le> float64 (float64 (of_int ?n) / 1000000000)" by (rule float64_nonneg)
  from a b have "1 \<le> float64 (of_int ?s) + float64 (float64 (of_int ?n) / 1000000000)"
    by linarith
  then have "1 \<le> float64 (float64 (of_int ?s) + float64 (float64 (of_int ?n) / 1000000000))"
    by (rule float64_ge_one)
  then show ?thesis by (simp only: Seconds_def Let_def qr)
qed

lemma int64_of_float_ge_one: "1 \<le> x \<Longrightarrow> 1 \<le> int64_of_float x"
  by (simp add: int64_of_float_def le_floor_iff)

lemma Sub_pos_iff: "0 < Sub t u \<longleftrightarrow> u < t"
  by (simp add: Sub_def minDuration_def maxDuration_def)

lemma Next_eq:
  "Next schedule t =
     (if t < StartTime schedule then StartTime schedule
      else Add t (int64_sub (Delay schedule) (int64_mul (Time_Nanosecond t) Nanosecond)))"
  by (simp add: Next_def Seconds_pos_iff Sub_pos_iff)


section \<open>The constructors and the regular rule\<close>

lemma wrap64_id: "is_int64 x \<Longrightarrow> wrap64 x = x"
  by (simp add: is_int64_def wrap64_def)

lemma Time_Nanosecond_range: "0 \<le> Time_Nanosecond t \<and> Time_Nanosecond t < 1000000000"
  by (simp add: Time_Nanosecond_def)

lemma go_rem_Nanosecond: "go_rem (Time_Nanosecond t) Second = Time_Nanosecond t"
  using go_quo_rem_pos [of "Time_Nanosecond t"] Time_Nanosecond_range [of t]
  by (simp add: Time_Nanosecond_def)

lemma int64_mul_Nanosecond: "int64_mul (Time_Nanosecond t) Nanosecond = Time_Nanosecond t"
  using Time_Nanosecond_range [of t]
  by (simp add: int64_mul_def Nanosecond_def wrap64_id is_int64_def)

lemma Every_Delay:
  assumes "is_int64 duration"
  shows "Delay (Every duration) =
           (if duration < Second then Second else duration - duration mod 1000000000)"
proof (cases "duration < Second")
  case True
  then show ?thesis
    by (simp add: Every_def Let_def Nanoseconds_def int64_sub_def go_rem_def Second_def
        wrap64_def)
next
  case False
  then have d: "1000000000 \<le> duration" by (simp add: Second_def)
  then have r: "go_rem duration Second = duration mod 1000000000"
    using go_quo_rem_pos [of duration] by simp
  have "0 \<le> duration mod 1000000000" "duration mod 1000000000 < 1000000000" by simp_all
  with d assms have "is_int64 (duration - duration mod 1000000000)"
    unfolding is_int64_def by linarith
  then show ?thesis using False
    by (simp add: Every_def Let_def Nanoseconds_def int64_sub_def r wrap64_id)
qed

lemma Every_Delay_range:
  assumes "is_int64 duration"
  shows "Second \<le> Delay (Every duration)" and "is_int64 (Delay (Every duration))"
proof -
  have m: "0 \<le> duration mod 1000000000" "duration mod 1000000000 < 1000000000" by simp_all
  have "1000000000 \<le> duration - duration mod 1000000000" if "1000000000 \<le> duration"
  proof -
    have "1000000000 div 1000000000 \<le> duration div 1000000000"
      using that by (rule zdiv_mono1) simp
    then have "1 \<le> duration div 1000000000" by simp
    then have "1000000000 \<le> 1000000000 * (duration div 1000000000)" by simp
    then show ?thesis by (simp add: minus_mod_eq_mult_div)
  qed
  then show "Second \<le> Delay (Every duration)"
    using assms by (simp add: Every_Delay Second_def not_less)
  moreover have "Delay (Every duration) \<le> max duration 1000000000"
    using assms m by (simp add: Every_Delay Second_def)
  ultimately show "is_int64 (Delay (Every duration))"
    using assms unfolding is_int64_def Second_def by linarith
qed

lemma Every_StartTime: "StartTime (Every duration) = 0"
  by (simp add: Every_def Let_def Unix_def)

lemma regular_rule:
  assumes "Second \<le> Delay s" and "is_int64 (Delay s)"
  shows "Add t (int64_sub (Delay s) (int64_mul (Time_Nanosecond t) Nanosecond)) =
           truncate_second t + Delay s"
proof -
  have "is_int64 (Delay s - Time_Nanosecond t)"
    using assms Time_Nanosecond_range [of t] unfolding is_int64_def Second_def by linarith
  then show ?thesis
    by (simp add: int64_mul_Nanosecond int64_sub_def wrap64_id Add_def truncate_second_def)
qed

lemma Seconds_zero: "Seconds 0 = 0"
  by (simp add: Seconds_def go_quo_def go_rem_def float64_zero)

lemma divisor_60: "int64_of_float (Seconds 60000000000) = 60"
  by code_simp


lemma EveryWithInitial_StartTime:
  "StartTime (EveryWithInitial t duration initial) =
     t + wrap64 (initial - Time_Nanosecond t)"
  by (simp add: EveryWithInitial_def Let_def Add_def int64_sub_def go_rem_Nanosecond)

lemma EveryWithInitial_Delay:
  "Delay (EveryWithInitial t duration initial) = Delay (Every duration)"
  by (simp add: EveryWithInitial_def Let_def)

lemma Every_5700: "Delay (Every 5700000000) = 5000000000"
  by (simp add: Every_Delay is_int64_def Second_def)

lemma Every_60: "Every 60000000000 = \<lparr>Delay = 60000000000, StartTime = 0\<rparr>"
  by (simp add: Every_def Let_def Nanoseconds_def int64_sub_def go_rem_def Second_def
      wrap64_def Unix_def)

lemma EveryWithRandInitial_60:
  assumes "is_int63 r63"
  shows "EveryWithRandInitial t0 r63 60000000000 =
           Inr \<lparr>Delay = 60000000000,
                StartTime = t0 + (60000000000 - Time_Nanosecond t0 - (r63 mod 60) * 1000000000)\<rparr>"
proof -
  have r: "go_rem r63 60 = r63 mod 60"
    using assms by (cases "r63 = 0") (simp_all add: go_rem_def is_int63_def)
  have m: "0 \<le> r63 mod 60" "r63 mod 60 < 60" by simp_all
  have n: "0 \<le> Time_Nanosecond t0" "Time_Nanosecond t0 < 1000000000"
    using Time_Nanosecond_range [of t0] by simp_all
  have a: "is_int64 ((r63 mod 60) * 1000000000)"
    using m unfolding is_int64_def by linarith
  have b: "is_int64 (60000000000 - Time_Nanosecond t0)"
    using n unfolding is_int64_def by linarith
  have c: "is_int64 (60000000000 - Time_Nanosecond t0 - (r63 mod 60) * 1000000000)"
    using m n unfolding is_int64_def by linarith
  have p: "int64_mul (r63 mod 60) Second = (r63 mod 60) * 1000000000"
    using a by (simp add: int64_mul_def Second_def wrap64_id)
  have q: "int64_sub 60000000000 (go_rem (Time_Nanosecond t0) Second) =
      60000000000 - Time_Nanosecond t0"
    using b by (simp add: int64_sub_def go_rem_Nanosecond wrap64_id)
  have "int64_sub (int64_sub 60000000000 (go_rem (Time_Nanosecond t0) Second))
          (int64_mul (r63 mod 60) Second) =
      60000000000 - Time_Nanosecond t0 - (r63 mod 60) * 1000000000"
    unfolding p q using c by (simp add: int64_sub_def wrap64_id)
  then show ?thesis
    by (simp add: EveryWithRandInitial_def Let_def divisor_60 Every_60 r Add_def)
qed

lemma EveryWithRandInitial_half_second_panics:
  "EveryWithRandInitial t r63 500000000 = Inl IntegerDivideByZero"
proof -
  have "int64_of_float (Seconds 500000000) = 0" by code_simp
  then show ?thesis by (simp add: EveryWithRandInitial_def Let_def)
qed

lemma EveryWithRandInitial_negative_divisor:
  "int64_of_float (Seconds (- 5000000000)) = - 5"
  by code_simp

lemma Next_Every_on_second:
  assumes "is_int64 duration"
  shows "Time_Nanosecond (Next (Every duration) now) = 0"
proof (cases "now < 0")
  case True
  then show ?thesis by (simp add: Next_eq Every_StartTime Time_Nanosecond_def)
next
  case False
  then have "Next (Every duration) now =
      Add now (int64_sub (Delay (Every duration)) (int64_mul (Time_Nanosecond now) Nanosecond))"
    by (simp add: Next_eq Every_StartTime)
  also have "\<dots> = truncate_second now + Delay (Every duration)"
    using Every_Delay_range [OF assms] by (rule regular_rule)
  finally have n: "Next (Every duration) now = truncate_second now + Delay (Every duration)" .
  have "Delay (Every duration) mod 1000000000 = 0"
    using assms by (simp add: Every_Delay Second_def minus_mod_eq_mult_div)
  moreover have "truncate_second now mod 1000000000 = 0"
    by (simp add: truncate_second_def Time_Nanosecond_def minus_mod_eq_mult_div)
  ultimately show ?thesis
    unfolding n Time_Nanosecond_def by (simp add: mod_add_eq [symmetric])
qed


section \<open>The interval\<close>

text \<open>
  C8.  A requested duration below one second, zero and negative durations included, gives
  the schedule of \<open>Every\<close> a \<open>Delay\<close> of exactly one second.
\<close>

theorem Every_subsecond_Delay:
  "duration < Second \<Longrightarrow> Delay (Every duration) = Second"
  by (simp add: Every_def Let_def Nanoseconds_def int64_sub_def go_rem_def Second_def wrap64_def)

theorem Every_subsecond_Delay_witness:
  "(- 5000000000 < Second \<and> Delay (Every (- 5000000000)) = Second) \<and>
   (0 < Second \<and> Delay (Every 0) = Second) \<and>
   (999999999 < Second \<and> Delay (Every 999999999) = Second)"
  using Every_subsecond_Delay [of "- 5000000000"] Every_subsecond_Delay [of 0]
    Every_subsecond_Delay [of 999999999]
  by (simp add: Second_def)

text \<open>
  C9.  After construction by any of the three constructors, for any requested duration,
  the \<open>Delay\<close> is at least one second and a whole number of seconds, and it is the
  requested duration (or one second, when less was requested) with its sub-second part
  cut off, not rounded: it is at most that duration and less than one second below it.
  \<open>EveryWithInitial\<close> keeps the \<open>Delay\<close> of \<open>Every\<close>, and so does every schedule
  that \<open>EveryWithRandInitial\<close> returns, which it does for every duration of at least one
  second.
\<close>

theorem constructors_Delay_whole_seconds:
  assumes "is_int64 duration"
  shows "(Second \<le> Delay (Every duration) \<and>
          Delay (Every duration) mod Second = 0 \<and>
          Delay (Every duration) \<le> max duration Second \<and>
          max duration Second < Delay (Every duration) + Second) \<and>
         Delay (EveryWithInitial t duration initial) = Delay (Every duration) \<and>
         (\<forall>s. EveryWithRandInitial t r63 duration = Inr s \<longrightarrow>
               Delay s = Delay (Every duration)) \<and>
         (Second \<le> duration \<longrightarrow> (\<exists>s. EveryWithRandInitial t r63 duration = Inr s))"
proof -
  have m: "0 \<le> duration mod 1000000000" "duration mod 1000000000 < 1000000000" by simp_all
  have a: "Second \<le> Delay (Every duration)"
    using assms by (rule Every_Delay_range(1))
  have b: "Delay (Every duration) mod Second = 0"
    using assms by (simp add: Every_Delay Second_def minus_mod_eq_mult_div)
  have D: "Delay (Every duration) =
      (if duration < 1000000000 then 1000000000 else duration - duration mod 1000000000)"
    using assms by (simp add: Every_Delay Second_def)
  have c: "Delay (Every duration) \<le> max duration Second"
    using m unfolding D Second_def by (cases "duration < 1000000000") simp_all
  have d: "max duration Second < Delay (Every duration) + Second"
  proof (cases "duration < 1000000000")
    case True
    then show ?thesis unfolding D Second_def by simp
  next
    case False
    with m show ?thesis unfolding D Second_def by simp
  qed
  have e: "Delay (EveryWithInitial t duration initial) = Delay (Every duration)"
    by (simp add: EveryWithInitial_def Let_def)
  have f: "\<forall>s. EveryWithRandInitial t r63 duration = Inr s \<longrightarrow>
             Delay s = Delay (Every duration)"
    by (auto simp add: EveryWithRandInitial_def Let_def split: if_splits)
  have g: "Second \<le> duration \<longrightarrow> (\<exists>s. EveryWithRandInitial t r63 duration = Inr s)"
  proof
    assume "Second \<le> duration"
    then have "1 \<le> Seconds duration" by (rule Seconds_ge_one)
    then have "1 \<le> int64_of_float (Seconds duration)" by (rule int64_of_float_ge_one)
    then have "int64_of_float (Seconds duration) \<noteq> 0" by simp
    then show "\<exists>s. EveryWithRandInitial t r63 duration = Inr s"
      by (simp add: EveryWithRandInitial_def Let_def)
  qed
  from a b c d e f g show ?thesis by blast
qed

theorem constructors_Delay_whole_seconds_witness:
  "is_int64 5700000000 \<and> Second \<le> 5700000000 \<and>
   Delay (Every 5700000000) = 5000000000 \<and>
   5000000000 mod Second = 0 \<and>
   Delay (EveryWithInitial 420000000 5700000000 0) = 5000000000 \<and>
   (\<exists>s. EveryWithRandInitial 420000000 7 5700000000 = Inr s \<and> Delay s = 5000000000)"
proof -
  have h: "is_int64 5700000000" by (simp add: is_int64_def)
  have s: "Second \<le> 5700000000" by (simp add: Second_def)
  note w = constructors_Delay_whole_seconds [OF h, of 420000000 0 7]
  from w s obtain s where "EveryWithRandInitial 420000000 7 5700000000 = Inr s" by blast
  moreover from this w have "Delay s = Delay (Every 5700000000)" by blast
  ultimately show ?thesis using h s w by (simp add: Every_5700 Second_def)
qed

section \<open>The next activation\<close>

text \<open>
  C10.  For a schedule built by \<open>Every\<close> and a query time strictly before the Unix epoch,
  \<open>Next\<close> returns the epoch \<open>Unix 0 0\<close> itself: the sentinel start time is in the future
  of such a time.
\<close>

theorem Next_before_epoch:
  "now < Unix 0 0 \<Longrightarrow> Next (Every duration) now = Unix 0 0"
  by (simp add: Next_eq Every_StartTime Unix_def)

theorem Next_before_epoch_witness:
  "- 1 < Unix 0 0 \<and> Next (Every 5000000000) (- 1) = Unix 0 0"
  using Next_before_epoch [of "- 1" 5000000000] by (simp add: Unix_def)

theorem Next_Every_before_epoch_counterexample:
  "Next (Every 5000000000) (- 1000000000) = Unix 0 0 \<and>
   Next (Every 5000000000) (- 1000000000) \<noteq>
     truncate_second (- 1000000000) + Delay (Every 5000000000)"
  by (simp add: Next_eq Every_StartTime Every_Delay is_int64_def Second_def
      truncate_second_def Time_Nanosecond_def Unix_def)

text \<open>
  C6, amended.  For a schedule built by \<open>Every\<close> and every query time at or after the
  Unix epoch, \<open>Next\<close> returns the query time truncated to the second plus the interval.
  Before the epoch it returns the epoch, as the closed instance above shows.
\<close>

theorem Next_Every_regular:
  assumes "is_int64 duration" and "Unix 0 0 \<le> now"
  shows "Next (Every duration) now = truncate_second now + Delay (Every duration)"
proof -
  have "\<not> now < StartTime (Every duration)"
    using assms(2) by (simp add: Every_StartTime Unix_def)
  then have "Next (Every duration) now =
      Add now (int64_sub (Delay (Every duration)) (int64_mul (Time_Nanosecond now) Nanosecond))"
    by (simp add: Next_eq)
  also have "\<dots> = truncate_second now + Delay (Every duration)"
    using Every_Delay_range [OF assms(1)] by (rule regular_rule)
  finally show ?thesis .
qed

theorem Next_Every_regular_witness:
  "is_int64 5000000000 \<and> Unix 0 0 \<le> 43203420000000 \<and>
   Next (Every 5000000000) 43203420000000 = 43208000000000"
proof -
  have h: "is_int64 5000000000" by (simp add: is_int64_def)
  have e: "Unix 0 0 \<le> 43203420000000" by (simp add: Unix_def)
  show ?thesis
    using h e Next_Every_regular [OF h e]
    by (simp add: Every_Delay Second_def truncate_second_def Time_Nanosecond_def)
qed

theorem Next_subsecond_future_counterexample:
  "StartTime (EveryWithInitial 0 5000000000 10000000000) - 9500000000 = 500000000 \<and>
   Next (EveryWithInitial 0 5000000000 10000000000) 9500000000 =
     StartTime (EveryWithInitial 0 5000000000 10000000000) \<and>
   Next (EveryWithInitial 0 5000000000 10000000000) 9500000000 \<noteq>
     truncate_second 9500000000 + Delay (EveryWithInitial 0 5000000000 10000000000)"
  by (simp add: Next_eq EveryWithInitial_StartTime EveryWithInitial_Delay Every_Delay
      is_int64_def Second_def wrap64_def truncate_second_def Time_Nanosecond_def)

text \<open>
  C2, amended.  When the start time is later than the query time by a positive amount
  below one second, \<open>Next\<close> does treat it as future and returns the start time
  unchanged: the test compares the difference in seconds as a fraction, and half a second
  is more than zero.
\<close>

theorem Next_subsecond_future:
  "now < StartTime s \<Longrightarrow> StartTime s - now < Second \<Longrightarrow> Next s now = StartTime s"
  by (simp add: Next_eq)

theorem Next_subsecond_future_witness:
  "(9500000000::int) < StartTime (EveryWithInitial 0 5000000000 10000000000) \<and>
   StartTime (EveryWithInitial 0 5000000000 10000000000) - 9500000000 < Second \<and>
   Next (EveryWithInitial 0 5000000000 10000000000) 9500000000 =
     StartTime (EveryWithInitial 0 5000000000 10000000000)"
proof -
  have a: "9500000000 < StartTime (EveryWithInitial 0 5000000000 10000000000)"
    by (simp add: EveryWithInitial_StartTime wrap64_def Time_Nanosecond_def)
  have b: "StartTime (EveryWithInitial 0 5000000000 10000000000) - 9500000000 < Second"
    by (simp add: EveryWithInitial_StartTime wrap64_def Time_Nanosecond_def Second_def)
  from a b Next_subsecond_future [OF a b] show ?thesis by blast
qed

text \<open>
  C7.  When the start time lies at least one full second after the query time, \<open>Next\<close>
  returns the start time unchanged, so any two such queries return the same value; for a
  schedule built at \<open>t0\<close> with an initial offset of ten seconds, the query at
  \<open>t0 + 1s\<close> is one of them.
\<close>

theorem Next_pending:
  assumes "Second \<le> StartTime s - now" and "Second \<le> StartTime s - now'"
  shows "Next s now = StartTime s \<and> Next s now' = Next s now \<and>
         Next (EveryWithInitial t0 duration (10 * Second)) (Add t0 Second) =
           StartTime (EveryWithInitial t0 duration (10 * Second))"
proof -
  have "now < StartTime s" "now' < StartTime s"
    using assms by (simp_all add: Second_def)
  then have a: "Next s now = StartTime s" and b: "Next s now' = StartTime s"
    by (simp_all add: Next_eq)
  have "is_int64 (10 * Second - Time_Nanosecond t0)"
    using Time_Nanosecond_range [of t0] unfolding is_int64_def Second_def by linarith
  then have "StartTime (EveryWithInitial t0 duration (10 * Second)) =
      t0 + (10 * Second - Time_Nanosecond t0)"
    by (simp add: EveryWithInitial_StartTime wrap64_id)
  moreover have "t0 + Second < t0 + (10 * Second - Time_Nanosecond t0)"
    using Time_Nanosecond_range [of t0] unfolding Second_def by linarith
  ultimately have c: "Next (EveryWithInitial t0 duration (10 * Second)) (Add t0 Second) =
      StartTime (EveryWithInitial t0 duration (10 * Second))"
    by (simp add: Next_eq Add_def)
  from a b c show ?thesis by simp
qed

theorem Next_pending_witness:
  "Second \<le> StartTime (EveryWithInitial 420000000 5000000000 (10 * Second)) - 1420000000 \<and>
   Second \<le> StartTime (EveryWithInitial 420000000 5000000000 (10 * Second)) - 8999999999 \<and>
   Next (EveryWithInitial 420000000 5000000000 (10 * Second)) 1420000000 = 10000000000 \<and>
   Next (EveryWithInitial 420000000 5000000000 (10 * Second)) 8999999999 = 10000000000"
proof -
  let ?s = "EveryWithInitial 420000000 5000000000 (10 * Second)"
  have st: "StartTime ?s = 10000000000"
    by (simp add: EveryWithInitial_StartTime wrap64_def Time_Nanosecond_def Second_def)
  have a: "Second \<le> StartTime ?s - 1420000000" using st by (simp add: Second_def)
  have b: "Second \<le> StartTime ?s - 8999999999" using st by (simp add: Second_def)
  from a b Next_pending [OF a b] show ?thesis by (simp add: st)
qed




section \<open>The randomized start time\<close>

theorem EveryWithRandInitial_60_window_counterexample:
  "EveryWithRandInitial 0 0 (60 * Second) =
     Inr \<lparr>Delay = 60 * Second, StartTime = 0 + 60 * Second\<rparr> \<and>
   \<not> StartTime \<lparr>Delay = 60 * Second, StartTime = 0 + 60 * Second\<rparr> < 0 + 60 * Second"
  using EveryWithRandInitial_60 [of 0 0]
  by (simp add: is_int63_def Second_def Time_Nanosecond_def)

text \<open>
  C3, amended.  For a requested duration of sixty seconds, every construction time \<open>t0\<close>
  and every draw, \<open>EveryWithRandInitial\<close> returns a schedule whose start time lies
  strictly after \<open>t0\<close> and at most sixty seconds after it; it is exactly \<open>t0 + 60s\<close> when
  \<open>t0\<close> has no sub-second part and the draw is a multiple of sixty, and only then.
\<close>

theorem EveryWithRandInitial_60_window:
  assumes "is_int63 r63"
  shows "\<exists>s. EveryWithRandInitial t0 r63 (60 * Second) = Inr s \<and>
           t0 < StartTime s \<and> StartTime s \<le> t0 + 60 * Second \<and>
           (StartTime s = t0 + 60 * Second \<longleftrightarrow> Time_Nanosecond t0 = 0 \<and> r63 mod 60 = 0)"
proof -
  let ?st = "t0 + (60000000000 - Time_Nanosecond t0 - (r63 mod 60) * 1000000000)"
  have m: "0 \<le> r63 mod 60" "r63 mod 60 < 60" by simp_all
  have n: "0 \<le> Time_Nanosecond t0" "Time_Nanosecond t0 < 1000000000"
    using Time_Nanosecond_range [of t0] by simp_all
  have lo: "t0 < ?st" using m n by linarith
  have hi: "?st \<le> t0 + 60000000000" using m n by linarith
  have eq: "?st = t0 + 60000000000 \<longleftrightarrow> Time_Nanosecond t0 = 0 \<and> r63 mod 60 = 0"
    using m n by auto
  have "EveryWithRandInitial t0 r63 (60 * Second) =
      Inr \<lparr>Delay = 60000000000, StartTime = ?st\<rparr>"
    using EveryWithRandInitial_60 [OF assms, of t0] by (simp add: Second_def)
  with lo hi eq show ?thesis by (simp add: Second_def)
qed

theorem EveryWithRandInitial_60_window_witness:
  "is_int63 4611686018427387904 \<and>
   (\<exists>s. EveryWithRandInitial 43203420000000 4611686018427387904 (60 * Second) = Inr s \<and>
        43203420000000 < StartTime s \<and> StartTime s < 43203420000000 + 60 * Second)"
proof -
  have h: "is_int63 4611686018427387904" by (simp add: is_int63_def)
  from EveryWithRandInitial_60_window [OF h, of 43203420000000]
  obtain s where c:
    "EveryWithRandInitial 43203420000000 4611686018427387904 (60 * Second) = Inr s \<and>
     43203420000000 < StartTime s \<and> StartTime s \<le> 43203420000000 + 60 * Second \<and>
     (StartTime s = 43203420000000 + 60 * Second \<longleftrightarrow>
        Time_Nanosecond 43203420000000 = 0 \<and> (4611686018427387904::int) mod 60 = 0)"
    by (rule exE)
  from c have s: "EveryWithRandInitial 43203420000000 4611686018427387904 (60 * Second) = Inr s"
    by (elim conjE)
  from c have lo: "43203420000000 < StartTime s"
    by (elim conjE)
  from c have hi: "StartTime s \<le> 43203420000000 + 60 * Second"
    by (elim conjE)
  from c have eq: "StartTime s = 43203420000000 + 60 * Second \<longleftrightarrow>
      Time_Nanosecond 43203420000000 = 0 \<and> (4611686018427387904::int) mod 60 = 0"
    by (elim conjE)
  have "Time_Nanosecond 43203420000000 \<noteq> 0" by (simp add: Time_Nanosecond_def)
  with eq have "StartTime s \<noteq> 43203420000000 + 60 * Second" by blast
  with hi have "StartTime s < 43203420000000 + 60 * Second" by linarith
  with h s lo show ?thesis by blast
qed

text \<open>
  C1.  The claim is that the divisor of the random draw is at least one for every requested
  duration.  The divisor is \<^verbatim>\<open>int64(duration.Seconds())\<close> of the unclamped argument: for a
  requested duration of zero it is zero, and the construction panics whatever the clock
  and the draw are.
\<close>

theorem EveryWithRandInitial_zero_panics:
  "EveryWithRandInitial t r63 0 = Inl IntegerDivideByZero"
  by (simp add: EveryWithRandInitial_def Let_def Seconds_zero int64_of_float_def)

text \<open>
  C4.  The claim is that every time returned by \<open>Next\<close> has a zero sub-second part.  A
  schedule built at the epoch by \<open>EveryWithInitial\<close> with an initial offset of half a
  second starts half a second past the epoch, and the query at the epoch returns that
  start time.
\<close>

theorem Next_EveryWithInitial_half_second:
  "Next (EveryWithInitial 0 5000000000 500000000) 0 = 500000000 \<and>
   Time_Nanosecond (Next (EveryWithInitial 0 5000000000 500000000) 0) = 500000000"
  by (simp add: Next_eq EveryWithInitial_StartTime wrap64_def Time_Nanosecond_def)

end
